theory Spec2Isabelle
  imports Complex_Main
begin

section \<open>The polling helpers of aws-async-assertions\<close>

text \<open>
  The repository's two pollers, \<open>getItem\<close> (src/dynamo-db/get-item.ts) and \<open>query\<close>
  (the DynamoDB query helper), are embedded as HOL functions. Everything they do beyond
  computing a value is made explicit:
  \<^item> the DynamoDB document client is a parameter \<open>send\<close> that takes the request and the
    state of the outside world and gives back either a thrown error (\<open>Inl\<close>) or a
    response (\<open>Inr\<close>), together with the next state of the world;
  \<^item> every store call, every \<open>console.error\<close> and every \<open>delay\<close> is appended to a
    trace of events, in program order;
  \<^item> a \<open>throw\<close> is a result \<open>Inl\<close>, a \<open>return\<close> is a result \<open>Inr\<close>.

  JavaScript numbers are modelled as \<open>int\<close> where the code counts with them
  (\<open>maxIterations\<close>, \<open>iteration\<close>, \<open>limit\<close>) and as \<open>real\<close> for the pause
  in seconds. The values NaN and Infinity are outside the model.
\<close>

subsection \<open>Effects and thrown values\<close>

datatype ('rq, 'e) event =
    Send 'rq           \<comment> \<open>\<open>client.send(new Command(rq))\<close>\<close>
  | ConsoleError 'e    \<comment> \<open>\<open>console.error(..., error)\<close>\<close>
  | Delay real         \<comment> \<open>\<open>await delay(seconds)\<close>\<close>

datatype 'e thrown =
    Rethrown 'e                \<comment> \<open>\<open>throw error\<close> in the catch block\<close>
  | Error string               \<comment> \<open>\<open>throw new Error(message)\<close>\<close>

type_synonym ('rq, 'rs, 'e, 's) client = "'rq \<Rightarrow> 's \<Rightarrow> ('e + 'rs) \<times> 's"

text \<open>
  JavaScript truthiness of a string: only the empty string is falsy. A value of type
  \<open>string | undefined\<close> is an \<open>option\<close>, and \<open>undefined\<close> is falsy as well.
\<close>

definition truthy :: "string \<Rightarrow> bool" where
  "truthy str = (str \<noteq> [])"

subsection \<open>getItem\<close>

record KeySchema =
  pk :: string
  sk :: "string option"

record GetCommandInput =
  TableName :: string
  Key :: "string \<rightharpoonup> string"

record 'item GetCommandOutput =
  Item :: "'item option"

text \<open>
  The object literal \<open>{ pk: keys.pk, ...(keys.sk && { sk: keys.sk }) }\<close>: spreading a
  falsy value adds no property.
\<close>

definition getItem_params :: "KeySchema \<Rightarrow> string \<Rightarrow> GetCommandInput" where
  "getItem_params keys tableName =
     \<lparr> TableName = tableName,
       Key = [''pk'' \<mapsto> pk keys] ++
             (case sk keys of
                None \<Rightarrow> Map.empty
              | Some sk_value \<Rightarrow> if truthy sk_value then [''sk'' \<mapsto> sk_value] else Map.empty) \<rparr>"

text \<open>
  Lines 58 to 74 of the source: the retry loop, from \<open>iteration\<close> on, in world \<open>s\<close>,
  with the events so far in \<open>tr\<close>.
\<close>

function getItem_loop ::
  "(GetCommandInput, 'item GetCommandOutput, 'e, 's) client \<Rightarrow> GetCommandInput \<Rightarrow> int \<Rightarrow> real \<Rightarrow>
   int \<Rightarrow> 's \<Rightarrow> (GetCommandInput, 'e) event list \<Rightarrow>
   ('e thrown + 'item) \<times> 's \<times> (GetCommandInput, 'e) event list" where
  "getItem_loop send params maxIterations delayInSeconds iteration s tr =
     (if iteration \<le> maxIterations then
        (case send params s of
           (Inl error, s') \<Rightarrow>
             (Inl (Rethrown error), s', tr @ [Send params, ConsoleError error])
         | (Inr response, s') \<Rightarrow>
             (case Item response of
                Some item \<Rightarrow> (Inr item, s', tr @ [Send params])
              | None \<Rightarrow>
                  getItem_loop send params maxIterations delayInSeconds (iteration + 1) s'
                    (tr @ [Send params, Delay delayInSeconds])))
      else (Inl (Error ''record not found''), s, tr))"
  by pat_completeness auto
termination
  by (relation "measure (\<lambda>(send, params, maxIterations, delayInSeconds, iteration, s, tr).
        nat (maxIterations + 1 - iteration))") auto

declare getItem_loop.simps [simp del]

definition getItem ::
  "(GetCommandInput, 'item GetCommandOutput, 'e, 's) client \<Rightarrow> KeySchema \<Rightarrow> string \<Rightarrow>
   int option \<Rightarrow> real option \<Rightarrow> 's \<Rightarrow>
   ('e thrown + 'item) \<times> 's \<times> (GetCommandInput, 'e) event list" where
  "getItem send keys tableName maxIterations_arg delayInSeconds_arg s =
     (let maxIterations = (case maxIterations_arg of None \<Rightarrow> 10 | Some n \<Rightarrow> n);
          delayInSeconds = (case delayInSeconds_arg of None \<Rightarrow> 2 | Some d \<Rightarrow> d);
          params = getItem_params keys tableName
      in getItem_loop send params maxIterations delayInSeconds 1 s [])"

subsection \<open>query\<close>

text \<open>
  \<open>QueryParams\<close> is the argument object of \<open>query\<close>; an optional property is an
  \<open>option\<close>. \<open>'v\<close> is the type of attribute values (\<open>any\<close> in the source).
\<close>

record 'v QueryParams =
  tableName :: string
  keyConditionExpression :: string
  expressionAttributeValues :: "string \<rightharpoonup> 'v"
  expressionAttributeNames :: "(string \<rightharpoonup> string) option"
  indexName :: "string option"
  limit :: "int option"
  filterExpression :: "string option"
  filterAttributeValues :: "(string \<rightharpoonup> 'v) option"
  consistentRead :: "bool option"
  lastEvaluatedKey :: "(string \<rightharpoonup> 'v) option"
  scanIndexForward :: "bool option"
  maxIterations :: "int option"
  delayInSeconds :: "real option"

text \<open>
  The request object handed to \<open>QueryCommand\<close>. A property whose value is
  \<open>undefined\<close> is \<open>None\<close>.
\<close>

record 'v QueryCommandInput =
  TableName :: string
  KeyConditionExpression :: string
  ExpressionAttributeValues :: "string \<rightharpoonup> 'v"
  IndexName :: "string option"
  Limit :: "int option"
  ConsistentRead :: "bool option"
  ExclusiveStartKey :: "(string \<rightharpoonup> 'v) option"
  ScanIndexForward :: "bool option"
  ExpressionAttributeNames :: "(string \<rightharpoonup> string) option"
  FilterExpression :: "string option"

record ('t, 'v) QueryCommandOutput =
  Items :: "'t list option"
  LastEvaluatedKey :: "(string \<rightharpoonup> 'v) option"

record ('t, 'v) QueryResult =
  items :: "'t list"
  lastEvaluatedKey :: "(string \<rightharpoonup> 'v) option"

text \<open>
  Lines 110 to 133 of the source: the object literal \<open>baseParams\<close> (with the default
  \<open>scanIndexForward = true\<close> of the parameter list and \<open>consistentRead ?? false\<close>),
  then the two conditional updates. An object is always truthy, so
  \<open>if (expressionAttributeNames)\<close> and \<open>if (filterAttributeValues)\<close> test presence.
\<close>

definition query_baseParams :: "'v QueryParams \<Rightarrow> 'v QueryCommandInput" where
  "query_baseParams p =
     (let baseParams =
            \<lparr> TableName = tableName p,
              KeyConditionExpression = keyConditionExpression p,
              ExpressionAttributeValues = expressionAttributeValues p,
              IndexName = indexName p,
              Limit = limit p,
              ConsistentRead = Some (case consistentRead p of None \<Rightarrow> False | Some b \<Rightarrow> b),
              ExclusiveStartKey = QueryParams.lastEvaluatedKey p,
              ScanIndexForward = Some (case scanIndexForward p of None \<Rightarrow> True | Some b \<Rightarrow> b),
              ExpressionAttributeNames = None,
              FilterExpression = None \<rparr>;
          baseParams =
            (case expressionAttributeNames p of
               None \<Rightarrow> baseParams
             | Some names \<Rightarrow> baseParams\<lparr>ExpressionAttributeNames := Some names\<rparr>);
          baseParams =
            (case filterExpression p of
               None \<Rightarrow> baseParams
             | Some fe \<Rightarrow>
                 if truthy fe then
                   (let baseParams = baseParams\<lparr>FilterExpression := Some fe\<rparr>
                    in case filterAttributeValues p of
                         None \<Rightarrow> baseParams
                       | Some fv \<Rightarrow>
                           baseParams\<lparr>ExpressionAttributeValues :=
                             ExpressionAttributeValues baseParams ++ fv\<rparr>)
                 else baseParams)
      in baseParams)"

text \<open>Line 141 of the source: \<open>(data.Items as T[]) ?? []\<close>.\<close>

definition page_items :: "('t, 'v) QueryCommandOutput \<Rightarrow> 't list" where
  "page_items data = (case Items data of None \<Rightarrow> [] | Some xs \<Rightarrow> xs)"

text \<open>
  Lines 135 to 155 of the source: the retry loop. \<open>maxIterations'\<close> and
  \<open>delayInSeconds'\<close> are the destructured parameters with their defaults applied (the
  unprimed names are the fields of \<open>QueryParams\<close>).
\<close>

function query_loop ::
  "('v QueryCommandInput, ('t, 'v) QueryCommandOutput, 'e, 's) client \<Rightarrow> 'v QueryCommandInput \<Rightarrow>
   int \<Rightarrow> real \<Rightarrow> int \<Rightarrow> 's \<Rightarrow> ('v QueryCommandInput, 'e) event list \<Rightarrow>
   ('e thrown + ('t, 'v) QueryResult) \<times> 's \<times> ('v QueryCommandInput, 'e) event list" where
  "query_loop send baseParams maxIterations' delayInSeconds' iteration s tr =
     (if iteration \<le> maxIterations' then
        (case send baseParams s of
           (Inl error, s') \<Rightarrow>
             (Inl (Rethrown error), s', tr @ [Send baseParams, ConsoleError error])
         | (Inr data, s') \<Rightarrow>
             (let items = page_items data
              in if length items > 0 \<or> LastEvaluatedKey data \<noteq> None then
                   (Inr \<lparr> items = items, lastEvaluatedKey = LastEvaluatedKey data \<rparr>,
                    s', tr @ [Send baseParams])
                 else
                   query_loop send baseParams maxIterations' delayInSeconds' (iteration + 1) s'
                     (tr @ [Send baseParams, Delay delayInSeconds'])))
      else (Inl (Error ''query returned no results after max retries''), s, tr))"
  by pat_completeness auto
termination
  by (relation "measure (\<lambda>(send, baseParams, maxIterations', delayInSeconds', iteration, s, tr).
        nat (maxIterations' + 1 - iteration))") auto

declare query_loop.simps [simp del]

definition query ::
  "('v QueryCommandInput, ('t, 'v) QueryCommandOutput, 'e, 's) client \<Rightarrow> 'v QueryParams \<Rightarrow> 's \<Rightarrow>
   ('e thrown + ('t, 'v) QueryResult) \<times> 's \<times> ('v QueryCommandInput, 'e) event list" where
  "query send p s =
     (let maxIterations = (case QueryParams.maxIterations p of None \<Rightarrow> 10 | Some n \<Rightarrow> n);
          delayInSeconds = (case QueryParams.delayInSeconds p of None \<Rightarrow> 2 | Some d \<Rightarrow> d);
          baseParams = query_baseParams p
      in query_loop send baseParams maxIterations delayInSeconds 1 s [])"

subsection \<open>Vocabulary of the properties\<close>




text \<open>The requests sent and the pauses made along a trace, in order.\<close>

fun calls :: "('rq, 'e) event list \<Rightarrow> 'rq list" where
  "calls [] = []"
| "calls (Send rq # tr) = rq # calls tr"
| "calls (ev # tr) = calls tr"



definition trace :: "'a \<times> 's \<times> 'tr \<Rightarrow> 'tr" where
  "trace run = snd (snd run)"

subsection \<open>A scripted store\<close>

text \<open>
  A test double in the style of a mocked \<open>send\<close>: the world is the list of answers still
  to be given, one per call; once the script is used up every call gets \<open>dflt\<close>.
\<close>

fun scripted :: "('e + 'rs) \<Rightarrow> ('rq, 'rs, 'e, ('e + 'rs) list) client" where
  "scripted dflt rq [] = (dflt, [])"
| "scripted dflt rq (answer # script) = (answer, script)"

text \<open>Inputs used in the examples.\<close>

definition example_keys :: KeySchema where
  "example_keys = \<lparr> pk = ''USER#1'', sk = None \<rparr>"

definition example_query :: "string QueryParams" where
  "example_query =
     \<lparr> tableName = ''orders-table'',
       keyConditionExpression = ''pk = :pk'',
       expressionAttributeValues = ['':pk'' \<mapsto> ''A''],
       expressionAttributeNames = None,
       indexName = None,
       limit = None,
       filterExpression = None,
       filterAttributeValues = None,
       consistentRead = None,
       lastEvaluatedKey = None,
       scanIndexForward = None,
       maxIterations = Some 3,
       delayInSeconds = Some 2 \<rparr>"

definition no_item :: "string + string GetCommandOutput" where
  "no_item = Inr \<lparr> Item = None \<rparr>"

definition empty_page :: "string + (string, string) QueryCommandOutput" where
  "empty_page = Inr \<lparr> Items = Some [], LastEvaluatedKey = None \<rparr>"




definition empty_sk_keys :: KeySchema where
  "empty_sk_keys = \<lparr> pk = ''USER#1'', sk = Some [] \<rparr>"

definition profile_keys :: KeySchema where
  "profile_keys = \<lparr> pk = ''USER#123'', sk = Some ''PROFILE'' \<rparr>"

definition filter_query :: "string QueryParams" where
  "filter_query =
     example_query\<lparr> filterExpression := Some ''pk = :pk'',
                    filterAttributeValues := Some ['':pk'' \<mapsto> ''B''] \<rparr>"

definition empty_filter_query :: "string QueryParams" where
  "empty_filter_query =
     example_query\<lparr> filterExpression := Some [],
                    filterAttributeValues := Some ['':pk'' \<mapsto> ''B''] \<rparr>"

definition values_only_query :: "string QueryParams" where
  "values_only_query =
     example_query\<lparr> filterAttributeValues := Some ['':date'' \<mapsto> ''2024-01-01''] \<rparr>"

definition index_query :: "string QueryParams" where
  "index_query =
     example_query\<lparr> indexName := Some ''status-index'', limit := Some 5,
                    consistentRead := Some True, scanIndexForward := Some False \<rparr>"

section \<open>Properties\<close>

subsection \<open>Unsuccessful rounds\<close>




subsection \<open>One round of getItem\<close>

lemma getItem_loop_past:
  "M < i \<Longrightarrow>
   getItem_loop send rq M d i s tr = (Inl (Error ''record not found''), s, tr)"
  by (subst getItem_loop.simps) simp

lemma getItem_loop_retry:
  assumes "i \<le> M" and "send rq s = (Inr r, s')" and "Item r = None"
  shows "getItem_loop send rq M d i s tr =
         getItem_loop send rq M d (i + 1) s' (tr @ [Send rq, Delay d])"
  using assms by (subst getItem_loop.simps) simp

lemma getItem_loop_return:
  assumes "i \<le> M" and "send rq s = (Inr r, s')" and "Item r = Some item"
  shows "getItem_loop send rq M d i s tr = (Inr item, s', tr @ [Send rq])"
  using assms by (subst getItem_loop.simps) simp

lemma getItem_loop_rethrow:
  assumes "i \<le> M" and "send rq s = (Inl e, s')"
  shows "getItem_loop send rq M d i s tr =
         (Inl (Rethrown e), s', tr @ [Send rq, ConsoleError e])"
  using assms by (subst getItem_loop.simps) simp

subsection \<open>Rounds that find nothing\<close>





subsection \<open>One round of query\<close>

lemma query_loop_past:
  "M < i \<Longrightarrow>
   query_loop send rq M d i s tr =
   (Inl (Error ''query returned no results after max retries''), s, tr)"
  by (subst query_loop.simps) simp

lemma query_loop_retry:
  assumes "i \<le> M" and "send rq s = (Inr data, s')"
    and "page_items data = []" and "LastEvaluatedKey data = None"
  shows "query_loop send rq M d i s tr =
         query_loop send rq M d (i + 1) s' (tr @ [Send rq, Delay d])"
  using assms by (subst query_loop.simps) simp

lemma query_loop_return:
  assumes "i \<le> M" and "send rq s = (Inr data, s')"
    and "page_items data \<noteq> [] \<or> LastEvaluatedKey data \<noteq> None"
  shows "query_loop send rq M d i s tr =
         (Inr \<lparr> items = page_items data, lastEvaluatedKey = LastEvaluatedKey data \<rparr>,
          s', tr @ [Send rq])"
  using assms by (subst query_loop.simps) auto

lemma query_loop_rethrow:
  assumes "i \<le> M" and "send rq s = (Inl e, s')"
  shows "query_loop send rq M d i s tr =
         (Inl (Rethrown e), s', tr @ [Send rq, ConsoleError e])"
  using assms by (subst query_loop.simps) simp

subsection \<open>Rounds of query that find nothing\<close>





subsection \<open>Counting along a trace\<close>

lemma calls_append: "calls (xs @ ys) = calls xs @ calls ys"
  by (induction xs rule: calls.induct) simp_all







subsection \<open>The scripted store\<close>






subsection \<open>Runs that end at attempt K\<close>








subsection \<open>One round decides by the success criterion\<close>





subsection \<open>The requests of a run\<close>

lemma getItem_loop_calls:
  "\<exists>n. calls (snd (snd (getItem_loop send rq M d i s tr))) = calls tr @ replicate n rq"
proof (induction "nat (M + 1 - i)" arbitrary: i s tr)
  case 0
  then have "M < i" by simp
  then have "calls (snd (snd (getItem_loop send rq M d i s tr))) = calls tr @ replicate 0 rq"
    by (simp add: getItem_loop_past)
  then show ?case by blast
next
  case (Suc m)
  then have le: "i \<le> M" by simp
  obtain res s' where st: "send rq s = (res, s')" by (cases "send rq s")
  show ?case
  proof (cases res)
    case (Inl e)
    with le st have "calls (snd (snd (getItem_loop send rq M d i s tr))) = calls tr @ replicate 1 rq"
      by (simp add: getItem_loop_rethrow calls_append)
    then show ?thesis by blast
  next
    case (Inr r)
    show ?thesis
    proof (cases "Item r")
      case None
      have "m = nat (M + 1 - (i + 1))" using Suc.hyps(2) by simp
      then have "\<exists>n. calls (snd (snd (getItem_loop send rq M d (i + 1) s' (tr @ [Send rq, Delay d])))) =
           calls (tr @ [Send rq, Delay d]) @ replicate n rq"
        by (rule Suc.hyps(1))
      then obtain n where
        "calls (snd (snd (getItem_loop send rq M d (i + 1) s' (tr @ [Send rq, Delay d])))) =
           calls (tr @ [Send rq, Delay d]) @ replicate n rq"
        by (elim exE)
      with le st Inr None
      have "calls (snd (snd (getItem_loop send rq M d i s tr))) = calls tr @ replicate (Suc n) rq"
        by (simp add: getItem_loop_retry [where r = r and s' = s'] calls_append)
      then show ?thesis by blast
    next
      case (Some item)
      with le st Inr
      have "calls (snd (snd (getItem_loop send rq M d i s tr))) = calls tr @ replicate 1 rq"
        by (simp add: getItem_loop_return [where r = r] calls_append)
      then show ?thesis by blast
    qed
  qed
qed

lemma query_loop_calls:
  "\<exists>n. calls (snd (snd (query_loop send rq M d i s tr))) = calls tr @ replicate n rq"
proof (induction "nat (M + 1 - i)" arbitrary: i s tr)
  case 0
  then have "M < i" by simp
  then have "calls (snd (snd (query_loop send rq M d i s tr))) = calls tr @ replicate 0 rq"
    by (simp add: query_loop_past)
  then show ?case by blast
next
  case (Suc m)
  then have le: "i \<le> M" by simp
  obtain res s' where st: "send rq s = (res, s')" by (cases "send rq s")
  show ?case
  proof (cases res)
    case (Inl e)
    with le st have "calls (snd (snd (query_loop send rq M d i s tr))) = calls tr @ replicate 1 rq"
      by (simp add: query_loop_rethrow calls_append)
    then show ?thesis by blast
  next
    case (Inr data)
    show ?thesis
    proof (cases "page_items data \<noteq> [] \<or> LastEvaluatedKey data \<noteq> None")
      case False
      have "m = nat (M + 1 - (i + 1))" using Suc.hyps(2) by simp
      then have "\<exists>n. calls (snd (snd (query_loop send rq M d (i + 1) s' (tr @ [Send rq, Delay d])))) =
           calls (tr @ [Send rq, Delay d]) @ replicate n rq"
        by (rule Suc.hyps(1))
      then obtain n where
        "calls (snd (snd (query_loop send rq M d (i + 1) s' (tr @ [Send rq, Delay d])))) =
           calls (tr @ [Send rq, Delay d]) @ replicate n rq"
        by (elim exE)
      with le st Inr False
      have "calls (snd (snd (query_loop send rq M d i s tr))) = calls tr @ replicate (Suc n) rq"
        by (simp add: query_loop_retry [where data = data and s' = s'] calls_append)
      then show ?thesis by blast
    next
      case True
      with le st Inr
      have "calls (snd (snd (query_loop send rq M d i s tr))) = calls tr @ replicate 1 rq"
        by (simp add: query_loop_return [where data = data] calls_append)
      then show ?thesis by blast
    qed
  qed
qed

lemma getItem_calls:
  "\<exists>n. calls (trace (getItem send keys t mi dl s)) = replicate n (getItem_params keys t)"
  using getItem_loop_calls [where tr = "[]" and rq = "getItem_params keys t"]
  by (simp add: getItem_def trace_def)

lemma query_calls:
  "\<exists>n. calls (trace (query send p s)) = replicate n (query_baseParams p)"
  using query_loop_calls [where tr = "[]" and rq = "query_baseParams p"]
  by (simp add: query_def trace_def)

lemma getItem_sends:
  "rq \<in> set (calls (trace (getItem send keys t mi dl s))) \<Longrightarrow> rq = getItem_params keys t"
  using getItem_calls [of send keys t mi dl s] by auto

lemma query_sends:
  "rq \<in> set (calls (trace (query send p s))) \<Longrightarrow> rq = query_baseParams p"
  using query_calls [of send p s] by auto

lemma getItem_params_absent:
  "sk keys = None \<Longrightarrow> Key (getItem_params keys t) = [''pk'' \<mapsto> pk keys]"
  by (simp add: getItem_params_def)

lemma getItem_params_empty:
  "sk keys = Some [] \<Longrightarrow> Key (getItem_params keys t) = [''pk'' \<mapsto> pk keys]"
  by (simp add: getItem_params_def truthy_def)

lemma getItem_params_present:
  "sk keys = Some v \<Longrightarrow> v \<noteq> [] \<Longrightarrow> Key (getItem_params keys t) = [''pk'' \<mapsto> pk keys, ''sk'' \<mapsto> v]"
  by (simp add: getItem_params_def truthy_def)

lemma getItem_params_never_empty_sk: "Key (getItem_params keys t) ''sk'' \<noteq> Some []"
  by (simp add: getItem_params_def truthy_def split: option.splits)

subsection \<open>The request of query\<close>

lemma query_baseParams_frame:
  "TableName (query_baseParams p) = tableName p"
  "KeyConditionExpression (query_baseParams p) = keyConditionExpression p"
  "IndexName (query_baseParams p) = indexName p"
  "Limit (query_baseParams p) = limit p"
  "ExclusiveStartKey (query_baseParams p) = QueryParams.lastEvaluatedKey p"
  "ConsistentRead (query_baseParams p) =
     Some (case consistentRead p of None \<Rightarrow> False | Some b \<Rightarrow> b)"
  "ScanIndexForward (query_baseParams p) =
     Some (case scanIndexForward p of None \<Rightarrow> True | Some b \<Rightarrow> b)"
  by (simp_all add: query_baseParams_def Let_def split: option.splits)

lemma query_baseParams_no_filter:
  assumes "filterExpression p = None"
  shows "FilterExpression (query_baseParams p) = None"
    and "ExpressionAttributeValues (query_baseParams p) = expressionAttributeValues p"
  using assms by (simp_all add: query_baseParams_def Let_def split: option.splits)

lemma query_baseParams_falsy_filter:
  assumes "filterExpression p = Some []"
  shows "FilterExpression (query_baseParams p) = None"
    and "ExpressionAttributeValues (query_baseParams p) = expressionAttributeValues p"
  using assms by (simp_all add: query_baseParams_def Let_def truthy_def split: option.splits)

lemma query_baseParams_filter:
  assumes "filterExpression p = Some fe" and "fe \<noteq> []" and "filterAttributeValues p = Some fv"
  shows "FilterExpression (query_baseParams p) = Some fe"
    and "ExpressionAttributeValues (query_baseParams p) = expressionAttributeValues p ++ fv"
  using assms by (simp_all add: query_baseParams_def Let_def truthy_def split: option.splits)

subsection \<open>The items of a page\<close>




section \<open>The retry policy\<close>









section \<open>The requests\<close>

text \<open>
  Claim C5, as stated, fails for a sort id that is present but empty: the test
  \<open>keys.sk && ...\<close> is on truthiness, so the key \<open>{pk: "USER#1", sk: ""}\<close> gives a
  request without the sort key field, and not one that carries both fields with the
  caller's values.
\<close>

theorem getItem_key_with_empty_sort_id_counterexample:
  "sk empty_sk_keys = Some [] \<and>
   \<not> (Key (getItem_params empty_sk_keys ''my-table'') ''pk'' = Some (pk empty_sk_keys) \<and>
      Key (getItem_params empty_sk_keys ''my-table'') ''sk'' = Some [])"
  by (simp add: empty_sk_keys_def getItem_params_def truthy_def)

text \<open>
  Claim C5, amended. Every request that \<open>getItem\<close> sends is \<open>getItem_params keys t\<close>. When
  the sort id is absent, its \<open>Key\<close> has the partition key field only: the sort key field
  is omitted, not sent as an empty value. When the sort id is present and not the empty
  string, the \<open>Key\<close> has both fields with the caller's values.
\<close>

theorem getItem_key_without_sort_id:
  "(rq \<in> set (calls (trace (getItem send keys t mi dl s))) \<longrightarrow> rq = getItem_params keys t) \<and>
   GetCommandInput.TableName (getItem_params keys t) = t \<and>
   (sk keys = None \<longrightarrow>
      Key (getItem_params keys t) = [''pk'' \<mapsto> pk keys] \<and>
      dom (Key (getItem_params keys t)) = {''pk''} \<and>
      Key (getItem_params keys t) ''sk'' = None) \<and>
   (sk keys = Some v \<and> v \<noteq> [] \<longrightarrow>
      Key (getItem_params keys t) = [''pk'' \<mapsto> pk keys, ''sk'' \<mapsto> v] \<and>
      Key (getItem_params keys t) ''pk'' = Some (pk keys) \<and>
      Key (getItem_params keys t) ''sk'' = Some v)"
proof (intro conjI impI)
  assume "rq \<in> set (calls (trace (getItem send keys t mi dl s)))"
  then show "rq = getItem_params keys t" by (rule getItem_sends)
next
  show "GetCommandInput.TableName (getItem_params keys t) = t"
    by (simp add: getItem_params_def)
next
  assume absent: "sk keys = None"
  then show "Key (getItem_params keys t) = [''pk'' \<mapsto> pk keys]"
    by (rule getItem_params_absent)
  from absent show "dom (Key (getItem_params keys t)) = {''pk''}"
    by (simp add: getItem_params_absent)
  from absent show "Key (getItem_params keys t) ''sk'' = None"
    by (simp add: getItem_params_absent)
next
  assume present: "sk keys = Some v \<and> v \<noteq> []"
  then show "Key (getItem_params keys t) = [''pk'' \<mapsto> pk keys, ''sk'' \<mapsto> v]"
    by (simp add: getItem_params_present)
  from present show "Key (getItem_params keys t) ''pk'' = Some (pk keys)"
    by (simp add: getItem_params_present)
  from present show "Key (getItem_params keys t) ''sk'' = Some v"
    by (simp add: getItem_params_present)
qed

theorem getItem_key_without_sort_id_witness:
  "getItem_params example_keys ''my-table'' \<in>
     set (calls (trace (getItem (scripted no_item) example_keys ''my-table'' (Some 1) None []))) \<and>
   sk example_keys = None \<and>
   pk example_keys = ''USER#1'' \<and>
   Key (getItem_params example_keys ''my-table'') = [''pk'' \<mapsto> ''USER#1''] \<and>
   dom (Key (getItem_params example_keys ''my-table'')) = {''pk''} \<and>
   Key (getItem_params example_keys ''my-table'') ''sk'' = None \<and>
   sk profile_keys = Some ''PROFILE'' \<and>
   pk profile_keys = ''USER#123'' \<and>
   Key (getItem_params profile_keys ''my-table'') ''pk'' = Some ''USER#123'' \<and>
   Key (getItem_params profile_keys ''my-table'') ''sk'' = Some ''PROFILE''"
proof -
  have sent: "getItem_params example_keys ''my-table'' \<in>
     set (calls (trace (getItem (scripted no_item) example_keys ''my-table'' (Some 1) None [])))"
    by (simp add: getItem_def trace_def getItem_loop.simps no_item_def)
  have absent: "sk example_keys = None" "pk example_keys = ''USER#1''"
    by (simp_all add: example_keys_def)
  have present: "sk profile_keys = Some ''PROFILE''" "pk profile_keys = ''USER#123''"
    by (simp_all add: profile_keys_def)
  have first:
    "Key (getItem_params example_keys ''my-table'') = [''pk'' \<mapsto> pk example_keys] \<and>
     dom (Key (getItem_params example_keys ''my-table'')) = {''pk''} \<and>
     Key (getItem_params example_keys ''my-table'') ''sk'' = None"
    by (rule getItem_key_without_sort_id [where keys = example_keys and t = "''my-table''",
        THEN conjunct2, THEN conjunct2, THEN conjunct1, THEN mp]) (rule absent(1))
  have second:
    "Key (getItem_params profile_keys ''my-table'') = [''pk'' \<mapsto> pk profile_keys, ''sk'' \<mapsto> ''PROFILE''] \<and>
     Key (getItem_params profile_keys ''my-table'') ''pk'' = Some (pk profile_keys) \<and>
     Key (getItem_params profile_keys ''my-table'') ''sk'' = Some ''PROFILE''"
    by (rule getItem_key_without_sort_id [where keys = profile_keys and t = "''my-table''"
        and v = "''PROFILE''", THEN conjunct2, THEN conjunct2, THEN conjunct2, THEN mp])
      (simp add: present(1))
  show ?thesis
    using sent first second by (simp add: absent present)
qed

text \<open>
  Claim C8. A key whose sort id is the empty string gives the same request, and so the same
  run, as the key without a sort id: the sort key field is omitted. No request that
  \<open>getItem\<close> sends, for any key, carries the empty string as its sort key, so a record
  whose sort key is the empty string cannot be addressed.
\<close>

theorem getItem_empty_sort_id_omitted:
  "getItem_params (keys\<lparr>sk := Some []\<rparr>) t = getItem_params (keys\<lparr>sk := None\<rparr>) t \<and>
   dom (Key (getItem_params (keys\<lparr>sk := Some []\<rparr>) t)) = {''pk''} \<and>
   Key (getItem_params (keys\<lparr>sk := Some []\<rparr>) t) ''sk'' = None \<and>
   getItem send (keys\<lparr>sk := Some []\<rparr>) t mi dl s = getItem send (keys\<lparr>sk := None\<rparr>) t mi dl s \<and>
   (rq \<in> set (calls (trace (getItem send keys' t' mi' dl' s'))) \<longrightarrow> Key rq ''sk'' \<noteq> Some [])"
proof (intro conjI impI)
  show same: "getItem_params (keys\<lparr>sk := Some []\<rparr>) t = getItem_params (keys\<lparr>sk := None\<rparr>) t"
    by (simp add: getItem_params_def truthy_def)
  show "dom (Key (getItem_params (keys\<lparr>sk := Some []\<rparr>) t)) = {''pk''}"
    by (simp add: getItem_params_empty)
  show "Key (getItem_params (keys\<lparr>sk := Some []\<rparr>) t) ''sk'' = None"
    by (simp add: getItem_params_empty)
  show "getItem send (keys\<lparr>sk := Some []\<rparr>) t mi dl s = getItem send (keys\<lparr>sk := None\<rparr>) t mi dl s"
    by (simp add: getItem_def same)
next
  assume "rq \<in> set (calls (trace (getItem send keys' t' mi' dl' s')))"
  then have "rq = getItem_params keys' t'" by (rule getItem_sends)
  then show "Key rq ''sk'' \<noteq> Some []" by (simp add: getItem_params_never_empty_sk)
qed

theorem getItem_empty_sort_id_omitted_witness:
  "sk empty_sk_keys = Some [] \<and>
   getItem_params empty_sk_keys ''my-table'' \<in>
     set (calls (trace (getItem (scripted no_item) empty_sk_keys ''my-table'' (Some 1) None []))) \<and>
   Key (getItem_params empty_sk_keys ''my-table'') ''sk'' \<noteq> Some [] \<and>
   Key (getItem_params empty_sk_keys ''my-table'') ''sk'' = None \<and>
   getItem_params empty_sk_keys ''my-table'' = getItem_params example_keys ''my-table''"
proof -
  have sent: "getItem_params empty_sk_keys ''my-table'' \<in>
     set (calls (trace (getItem (scripted no_item) empty_sk_keys ''my-table'' (Some 1) None [])))"
    by (simp add: getItem_def trace_def getItem_loop.simps no_item_def)
  have keys: "sk empty_sk_keys = Some []" "empty_sk_keys\<lparr>sk := Some []\<rparr> = empty_sk_keys"
    "empty_sk_keys\<lparr>sk := None\<rparr> = example_keys"
    by (simp_all add: empty_sk_keys_def example_keys_def)
  note inst = getItem_empty_sort_id_omitted [where keys = empty_sk_keys and t = "''my-table''"
      and rq = "getItem_params empty_sk_keys ''my-table''" and send = "scripted no_item"
      and mi = "Some 1" and dl = None and s = "[]"
      and keys' = empty_sk_keys and t' = "''my-table''" and mi' = "Some 1" and dl' = None
      and s' = "[]", unfolded keys]
  note same = inst [THEN conjunct1]
  note omitted = inst [THEN conjunct2, THEN conjunct2, THEN conjunct1]
  note never = inst [THEN conjunct2, THEN conjunct2, THEN conjunct2, THEN conjunct2, THEN mp, OF sent]
  show ?thesis
    by (intro conjI) (rule keys(1) sent never omitted same)+
qed

text \<open>
  Claim C6, as stated, fails for a filter expression that is supplied but empty: the test
  \<open>if (filterExpression)\<close> is on truthiness, so with \<open>filterExpression: ""\<close> the filter
  values are not merged and the key-condition value of a colliding name is sent.
\<close>

theorem query_empty_filter_expression_counterexample:
  "filterExpression empty_filter_query = Some [] \<and>
   filterAttributeValues empty_filter_query = Some ['':pk'' \<mapsto> ''B''] \<and>
   expressionAttributeValues empty_filter_query '':pk'' = Some ''A'' \<and>
   ExpressionAttributeValues (query_baseParams empty_filter_query) '':pk'' = Some ''A'' \<and>
   \<not> (ExpressionAttributeValues (query_baseParams empty_filter_query) '':pk'' = Some ''B'')"
proof -
  have fe: "filterExpression empty_filter_query = Some []"
    by (simp add: empty_filter_query_def)
  have kv: "expressionAttributeValues empty_filter_query '':pk'' = Some ''A''"
    by (simp add: empty_filter_query_def example_query_def)
  have fv: "filterAttributeValues empty_filter_query = Some ['':pk'' \<mapsto> ''B'']"
    by (simp add: empty_filter_query_def)
  show ?thesis
    by (simp add: query_baseParams_falsy_filter [OF fe] fe kv fv)
qed

text \<open>
  Claim C6, amended. Every request that \<open>query\<close> sends is \<open>query_baseParams p\<close>. When a
  filter expression that is not the empty string and filter attribute values are both
  supplied, the value map of the request is the key-condition value map with the filter
  value map merged on top: a name defined by the filter values has the filter's value,
  also when the key-condition values define it too, and every other name has its
  key-condition value.
\<close>

theorem query_filter_values_override:
  "(rq \<in> set (calls (trace (query send p s))) \<longrightarrow> rq = query_baseParams p) \<and>
   (filterExpression p = Some fe \<and> fe \<noteq> [] \<and> filterAttributeValues p = Some fv \<longrightarrow>
      FilterExpression (query_baseParams p) = Some fe \<and>
      ExpressionAttributeValues (query_baseParams p) = expressionAttributeValues p ++ fv \<and>
      (\<forall>name v. fv name = Some v \<longrightarrow>
         ExpressionAttributeValues (query_baseParams p) name = Some v) \<and>
      (\<forall>name. fv name = None \<longrightarrow>
         ExpressionAttributeValues (query_baseParams p) name = expressionAttributeValues p name))"
proof (intro conjI impI allI)
  assume "rq \<in> set (calls (trace (query send p s)))"
  then show "rq = query_baseParams p" by (rule query_sends)
next
  assume h: "filterExpression p = Some fe \<and> fe \<noteq> [] \<and> filterAttributeValues p = Some fv"
  then show "FilterExpression (query_baseParams p) = Some fe"
    by (simp add: query_baseParams_filter(1) [where fv = fv])
  from h show merged: "ExpressionAttributeValues (query_baseParams p) = expressionAttributeValues p ++ fv"
    by (simp add: query_baseParams_filter(2) [where fe = fe])
  fix name
  show "fv name = None \<Longrightarrow>
        ExpressionAttributeValues (query_baseParams p) name = expressionAttributeValues p name"
    by (simp add: merged map_add_def)
  fix v
  show "fv name = Some v \<Longrightarrow> ExpressionAttributeValues (query_baseParams p) name = Some v"
    by (simp add: merged map_add_def)
qed

theorem query_filter_values_override_witness:
  "query_baseParams filter_query \<in>
     set (calls (trace (query (scripted empty_page) filter_query []))) \<and>
   filterExpression filter_query = Some ''pk = :pk'' \<and>
   filterAttributeValues filter_query = Some ['':pk'' \<mapsto> ''B''] \<and>
   expressionAttributeValues filter_query '':pk'' = Some ''A'' \<and>
   FilterExpression (query_baseParams filter_query) = Some ''pk = :pk'' \<and>
   ExpressionAttributeValues (query_baseParams filter_query) '':pk'' = Some ''B''"
proof -
  have sent: "query_baseParams filter_query \<in>
     set (calls (trace (query (scripted empty_page) filter_query [])))"
  proof -
    have "QueryParams.maxIterations filter_query = Some 3"
      "QueryParams.delayInSeconds filter_query = Some 2"
      by (simp_all add: filter_query_def example_query_def)
    then show ?thesis
      by (simp add: query_def trace_def Let_def query_loop.simps empty_page_def page_items_def)
  qed
  have fe: "filterExpression filter_query = Some ''pk = :pk''"
    by (simp add: filter_query_def)
  have fv: "filterAttributeValues filter_query = Some ['':pk'' \<mapsto> ''B'']"
    by (simp add: filter_query_def)
  have kv: "expressionAttributeValues filter_query '':pk'' = Some ''A''"
    by (simp add: filter_query_def example_query_def)
  have hyp: "filterExpression filter_query = Some ''pk = :pk'' \<and> ''pk = :pk'' \<noteq> [] \<and>
     filterAttributeValues filter_query = Some ['':pk'' \<mapsto> ''B'']"
    using fe fv by simp
  note inst = query_filter_values_override [where p = filter_query and fe = "''pk = :pk''"
      and fv = "['':pk'' \<mapsto> ''B'']", THEN conjunct2, THEN mp, OF hyp]
  note expr = inst [THEN conjunct1]
  have override: "ExpressionAttributeValues (query_baseParams filter_query) '':pk'' = Some ''B''"
    by (rule inst [THEN conjunct2, THEN conjunct2, THEN conjunct1, THEN spec, THEN spec, THEN mp])
      simp
  show ?thesis
    by (intro conjI) (rule sent fe fv kv expr override)+
qed

text \<open>
  Claim C7, as stated, fails for the consistency flag: \<open>consistentRead ?? false\<close> turns an
  absent flag into \<open>false\<close>, so an absent value does not stay absent in the request.
\<close>

theorem query_consistency_flag_counterexample:
  "consistentRead example_query = None \<and>
   ConsistentRead (query_baseParams example_query) = Some False \<and>
   \<not> (ConsistentRead (query_baseParams example_query) = consistentRead example_query)"
  by (simp add: query_baseParams_frame example_query_def)

text \<open>
  Claim C7, amended. In every request that \<open>query\<close> sends, the index selection and the row
  cap are those of the caller, unchanged, an absent value staying absent; the consistency
  flag is the caller's when it is supplied and \<open>false\<close> when it is absent; the sort order
  is ascending unless the caller asks for descending.
\<close>

theorem query_passthrough:
  "(rq \<in> set (calls (trace (query send p s))) \<longrightarrow> rq = query_baseParams p) \<and>
   IndexName (query_baseParams p) = indexName p \<and>
   Limit (query_baseParams p) = limit p \<and>
   (consistentRead p = Some b \<longrightarrow> ConsistentRead (query_baseParams p) = Some b) \<and>
   (consistentRead p = None \<longrightarrow> ConsistentRead (query_baseParams p) = Some False) \<and>
   (scanIndexForward p = Some False \<longrightarrow> ScanIndexForward (query_baseParams p) = Some False) \<and>
   (scanIndexForward p \<noteq> Some False \<longrightarrow> ScanIndexForward (query_baseParams p) = Some True)"
proof (intro conjI impI)
  assume "rq \<in> set (calls (trace (query send p s)))"
  then show "rq = query_baseParams p" by (rule query_sends)
next
  show "IndexName (query_baseParams p) = indexName p" by (rule query_baseParams_frame)
  show "Limit (query_baseParams p) = limit p" by (rule query_baseParams_frame)
  show "consistentRead p = Some b \<Longrightarrow> ConsistentRead (query_baseParams p) = Some b"
    by (simp add: query_baseParams_frame)
  show "consistentRead p = None \<Longrightarrow> ConsistentRead (query_baseParams p) = Some False"
    by (simp add: query_baseParams_frame)
  show "scanIndexForward p = Some False \<Longrightarrow> ScanIndexForward (query_baseParams p) = Some False"
    by (simp add: query_baseParams_frame)
  show "scanIndexForward p \<noteq> Some False \<Longrightarrow> ScanIndexForward (query_baseParams p) = Some True"
    by (cases "scanIndexForward p") (simp_all add: query_baseParams_frame)
qed

theorem query_passthrough_witness:
  "query_baseParams index_query \<in>
     set (calls (trace (query (scripted empty_page) index_query []))) \<and>
   indexName index_query = Some ''status-index'' \<and>
   limit index_query = Some 5 \<and>
   consistentRead index_query = Some True \<and>
   scanIndexForward index_query = Some False \<and>
   IndexName (query_baseParams index_query) = Some ''status-index'' \<and>
   Limit (query_baseParams index_query) = Some 5 \<and>
   ConsistentRead (query_baseParams index_query) = Some True \<and>
   ScanIndexForward (query_baseParams index_query) = Some False \<and>
   indexName example_query = None \<and>
   limit example_query = None \<and>
   consistentRead example_query = None \<and>
   scanIndexForward example_query \<noteq> Some False \<and>
   IndexName (query_baseParams example_query) = None \<and>
   Limit (query_baseParams example_query) = None \<and>
   ConsistentRead (query_baseParams example_query) = Some False \<and>
   ScanIndexForward (query_baseParams example_query) = Some True"
proof -
  have sent: "query_baseParams index_query \<in>
     set (calls (trace (query (scripted empty_page) index_query [])))"
  proof -
    have "QueryParams.maxIterations index_query = Some 3"
      "QueryParams.delayInSeconds index_query = Some 2"
      by (simp_all add: index_query_def example_query_def)
    then show ?thesis
      by (simp add: query_def trace_def Let_def query_loop.simps empty_page_def page_items_def)
  qed
  have given: "indexName index_query = Some ''status-index''" "limit index_query = Some 5"
    "consistentRead index_query = Some True" "scanIndexForward index_query = Some False"
    by (simp_all add: index_query_def)
  have absent: "indexName example_query = None" "limit example_query = None"
    "consistentRead example_query = None" "scanIndexForward example_query \<noteq> Some False"
    by (simp_all add: example_query_def)
  note a = query_passthrough [where p = index_query and b = True]
  note b = query_passthrough [where p = example_query]
  have a_index: "IndexName (query_baseParams index_query) = Some ''status-index''"
    using a [THEN conjunct2, THEN conjunct1] given(1) by simp
  have a_limit: "Limit (query_baseParams index_query) = Some 5"
    using a [THEN conjunct2, THEN conjunct2, THEN conjunct1] given(2) by simp
  note a_read = a [THEN conjunct2, THEN conjunct2, THEN conjunct2, THEN conjunct1, THEN mp,
      OF given(3)]
  note a_order = a [THEN conjunct2, THEN conjunct2, THEN conjunct2, THEN conjunct2,
      THEN conjunct2, THEN conjunct1, THEN mp, OF given(4)]
  have b_index: "IndexName (query_baseParams example_query) = None"
    using b [THEN conjunct2, THEN conjunct1] absent(1) by simp
  have b_limit: "Limit (query_baseParams example_query) = None"
    using b [THEN conjunct2, THEN conjunct2, THEN conjunct1] absent(2) by simp
  note b_read = b [THEN conjunct2, THEN conjunct2, THEN conjunct2, THEN conjunct2,
      THEN conjunct1, THEN mp, OF absent(3)]
  note b_order = b [THEN conjunct2, THEN conjunct2, THEN conjunct2, THEN conjunct2,
      THEN conjunct2, THEN conjunct2, THEN mp, OF absent(4)]
  show ?thesis
    by (intro conjI)
      (rule sent given absent a_index a_limit a_read a_order b_index b_limit b_read b_order)+
qed

text \<open>
  Claim C9. When filter attribute values are supplied and no filter expression is, the
  request that \<open>query\<close> sends has no filter expression, and its value map is exactly the
  key-condition value map: the filter values are ignored.
\<close>

theorem query_filter_values_ignored:
  "(rq \<in> set (calls (trace (query send p s))) \<longrightarrow> rq = query_baseParams p) \<and>
   (filterExpression p = None \<and> filterAttributeValues p = Some fv \<longrightarrow>
      FilterExpression (query_baseParams p) = None \<and>
      ExpressionAttributeValues (query_baseParams p) = expressionAttributeValues p)"
proof (intro conjI impI)
  assume "rq \<in> set (calls (trace (query send p s)))"
  then show "rq = query_baseParams p" by (rule query_sends)
next
  assume h: "filterExpression p = None \<and> filterAttributeValues p = Some fv"
  then show "FilterExpression (query_baseParams p) = None"
    by (simp add: query_baseParams_no_filter)
  from h show "ExpressionAttributeValues (query_baseParams p) = expressionAttributeValues p"
    by (simp add: query_baseParams_no_filter)
qed

theorem query_filter_values_ignored_witness:
  "query_baseParams values_only_query \<in>
     set (calls (trace (query (scripted empty_page) values_only_query []))) \<and>
   filterExpression values_only_query = None \<and>
   filterAttributeValues values_only_query = Some ['':date'' \<mapsto> ''2024-01-01''] \<and>
   FilterExpression (query_baseParams values_only_query) = None \<and>
   ExpressionAttributeValues (query_baseParams values_only_query) =
     expressionAttributeValues values_only_query \<and>
   expressionAttributeValues values_only_query '':date'' = None \<and>
   ExpressionAttributeValues (query_baseParams values_only_query) '':date'' = None"
proof -
  have sent: "query_baseParams values_only_query \<in>
     set (calls (trace (query (scripted empty_page) values_only_query [])))"
  proof -
    have "QueryParams.maxIterations values_only_query = Some 3"
      "QueryParams.delayInSeconds values_only_query = Some 2"
      by (simp_all add: values_only_query_def example_query_def)
    then show ?thesis
      by (simp add: query_def trace_def Let_def query_loop.simps empty_page_def page_items_def)
  qed
  have fe: "filterExpression values_only_query = None"
    by (simp add: values_only_query_def example_query_def)
  have fv: "filterAttributeValues values_only_query = Some ['':date'' \<mapsto> ''2024-01-01'']"
    by (simp add: values_only_query_def)
  have kv: "expressionAttributeValues values_only_query '':date'' = None"
    by (simp add: values_only_query_def example_query_def)
  have hyp: "filterExpression values_only_query = None \<and>
     filterAttributeValues values_only_query = Some ['':date'' \<mapsto> ''2024-01-01'']"
    using fe fv by simp
  note inst = query_filter_values_ignored [where p = values_only_query
      and fv = "['':date'' \<mapsto> ''2024-01-01'']", THEN conjunct2, THEN mp, OF hyp]
  note no_expr = inst [THEN conjunct1]
  note same = inst [THEN conjunct2]
  have at_date: "ExpressionAttributeValues (query_baseParams values_only_query) '':date'' = None"
    by (simp only: same kv)
  show ?thesis
    by (intro conjI) (rule sent fe fv no_expr same kv at_date)+
qed

text \<open>
  Claim C10. All the requests of one run of \<open>query\<close> are the same request
  \<open>query_baseParams p\<close>, which is built from the caller's parameters alone, before the
  loop: whatever the store answers and however many attempts are made, each attempt sends
  the same table, key condition, values, index, limit, flags and the caller's own
  continuation token.
\<close>

theorem query_same_request_every_attempt:
  "calls (trace (query send p s)) =
     replicate (length (calls (trace (query send p s)))) (query_baseParams p) \<and>
   (rq \<in> set (calls (trace (query send p s))) \<longrightarrow>
      rq = query_baseParams p \<and>
      TableName rq = tableName p \<and>
      KeyConditionExpression rq = keyConditionExpression p \<and>
      IndexName rq = indexName p \<and>
      Limit rq = limit p \<and>
      ExclusiveStartKey rq = QueryParams.lastEvaluatedKey p)"
proof (intro conjI impI)
  obtain n where n: "calls (trace (query send p s)) = replicate n (query_baseParams p)"
    using query_calls [of send p s] by (elim exE)
  then show "calls (trace (query send p s)) =
     replicate (length (calls (trace (query send p s)))) (query_baseParams p)"
    by simp
next
  assume "rq \<in> set (calls (trace (query send p s)))"
  then show rq: "rq = query_baseParams p" by (rule query_sends)
  show "TableName rq = tableName p" by (simp add: rq query_baseParams_frame)
  show "KeyConditionExpression rq = keyConditionExpression p" by (simp add: rq query_baseParams_frame)
  show "IndexName rq = indexName p" by (simp add: rq query_baseParams_frame)
  show "Limit rq = limit p" by (simp add: rq query_baseParams_frame)
  show "ExclusiveStartKey rq = QueryParams.lastEvaluatedKey p" by (simp add: rq query_baseParams_frame)
qed

theorem query_same_request_every_attempt_witness:
  "calls (trace (query (scripted empty_page) example_query [])) =
     [query_baseParams example_query, query_baseParams example_query,
      query_baseParams example_query] \<and>
   query_baseParams example_query \<in>
     set (calls (trace (query (scripted empty_page) example_query []))) \<and>
   ExclusiveStartKey (query_baseParams example_query) =
     QueryParams.lastEvaluatedKey example_query"
proof -
  have budget: "QueryParams.maxIterations example_query = Some 3"
    "QueryParams.delayInSeconds example_query = Some 2"
    by (simp_all add: example_query_def)
  have count: "length (calls (trace (query (scripted empty_page) example_query []))) = 3"
    using budget
    by (simp add: query_def trace_def Let_def query_loop.simps empty_page_def page_items_def)
  note inst = query_same_request_every_attempt [where send = "scripted empty_page"
      and p = example_query and s = "[]" and rq = "query_baseParams example_query"]
  have all: "calls (trace (query (scripted empty_page) example_query [])) =
     [query_baseParams example_query, query_baseParams example_query,
      query_baseParams example_query]"
    using inst [THEN conjunct1] by (simp only: count) (simp add: eval_nat_numeral)
  have sent: "query_baseParams example_query \<in>
     set (calls (trace (query (scripted empty_page) example_query [])))"
    by (simp only: all) simp
  have token: "ExclusiveStartKey (query_baseParams example_query) =
     QueryParams.lastEvaluatedKey example_query"
    using inst [THEN conjunct2, THEN mp, OF sent] by (elim conjE)
  show ?thesis
    by (intro conjI) (rule all sent token)+
qed

end
